theory Spec2Isabelle
  imports Complex_Main "HOL-Library.Word"
begin

section \<open>JavaScript strings, code points and UTF-8\<close>

text \<open>
  A JavaScript string is a sequence of 16-bit code units. The string iterator used by
  \<^verbatim>\<open>for (const char of input)\<close> yields one string per code point: a leading surrogate
  directly followed by a trailing surrogate is yielded as one two-unit string, every other
  code unit (a lone surrogate included) as a one-unit string.
\<close>

type_synonym jsstring = "16 word list"

definition str :: "string \<Rightarrow> jsstring" where
  "str s = map of_char s"

definition is_lead :: "16 word \<Rightarrow> bool" where
  "is_lead u \<longleftrightarrow> 0xD800 \<le> u \<and> u \<le> 0xDBFF"

definition is_trail :: "16 word \<Rightarrow> bool" where
  "is_trail u \<longleftrightarrow> 0xDC00 \<le> u \<and> u \<le> 0xDFFF"

fun code_points :: "jsstring \<Rightarrow> jsstring list" where
  "code_points [] = []"
| "code_points [u] = [[u]]"
| "code_points (u # v # r) =
     (if is_lead u \<and> is_trail v then [u, v] # code_points r
      else [u] # code_points (v # r))"

text \<open>
  \<^verbatim>\<open>TextEncoder.encode\<close> first replaces every lone surrogate by U+FFFD and then writes
  each scalar value in UTF-8.
\<close>

fun scalar_value :: "jsstring \<Rightarrow> nat" where
  "scalar_value [u] = (if is_lead u \<or> is_trail u then 0xFFFD else unat u)"
| "scalar_value [u, v] =
     (if is_lead u \<and> is_trail v
      then 0x10000 + (unat u - 0xD800) * 0x400 + (unat v - 0xDC00)
      else 0xFFFD)"
| "scalar_value _ = 0xFFFD"

definition utf8 :: "nat \<Rightarrow> 8 word list" where
  "utf8 n =
     (if n < 0x80 then [of_nat n]
      else if n < 0x800 then [of_nat (0xC0 + n div 0x40), of_nat (0x80 + n mod 0x40)]
      else if n < 0x10000 then
        [of_nat (0xE0 + n div 0x1000), of_nat (0x80 + (n div 0x40) mod 0x40),
         of_nat (0x80 + n mod 0x40)]
      else
        [of_nat (0xF0 + n div 0x40000), of_nat (0x80 + (n div 0x1000) mod 0x40),
         of_nat (0x80 + (n div 0x40) mod 0x40), of_nat (0x80 + n mod 0x40)])"

definition encode :: "jsstring \<Rightarrow> 8 word list" where
  "encode s = concat (map (\<lambda>c. utf8 (scalar_value c)) (code_points s))"

section \<open>The chunking codec (CookieStore.ts, chunkStringByBytes)\<close>

text \<open>
  The loop of \<^verbatim>\<open>chunkStringByBytes\<close> over the code points of the input. Its state is
  the list of closed chunks, the current chunk and the byte count of the current chunk.
  \<^verbatim>\<open>maxBytes\<close> is a JavaScript number; it is modelled as an integer.
\<close>

fun chunk_loop ::
  "int \<Rightarrow> jsstring list \<Rightarrow> jsstring list \<Rightarrow> jsstring \<Rightarrow> nat \<Rightarrow> jsstring list \<times> jsstring"
where
  "chunk_loop maxBytes [] chunks current currentBytes = (chunks, current)"
| "chunk_loop maxBytes (char # rest) chunks current currentBytes =
     (let charBytes = length (encode char) in
      if int currentBytes + int charBytes > maxBytes
      then chunk_loop maxBytes rest (chunks @ [current]) char charBytes
      else chunk_loop maxBytes rest chunks (current @ char) (currentBytes + charBytes))"

definition chunkStringByBytes :: "jsstring \<Rightarrow> int \<Rightarrow> jsstring list" where
  "chunkStringByBytes input maxBytes =
     (case chunk_loop maxBytes (code_points input) [] [] 0 of
        (chunks, current) \<Rightarrow> if current \<noteq> [] then chunks @ [current] else chunks)"

section \<open>Values shared by the stores\<close>

text \<open>
  \<^verbatim>\<open>SessionData\<close> (fields \<^verbatim>\<open>_data\<close>, \<^verbatim>\<open>_expire\<close>, \<^verbatim>\<open>_delete\<close>, \<^verbatim>\<open>_accessed\<close>). The
  timestamps are ISO strings or \<^verbatim>\<open>null\<close>; the type of the payload \<^verbatim>\<open>_data\<close> is left open.
\<close>

record 'd SessionData =
  s_data :: 'd
  s_expire :: "jsstring option"
  s_delete :: bool
  s_accessed :: "jsstring option"

text \<open>A session with an empty payload, for the concrete evaluations.\<close>

definition session :: "jsstring option \<Rightarrow> bool \<Rightarrow> jsstring option \<Rightarrow> unit SessionData" where
  "session expir del acc = \<lparr>s_data = (), s_expire = expir, s_delete = del, s_accessed = acc\<rparr>"

text \<open>Every \<^verbatim>\<open>throw\<close> of the two stores.\<close>

datatype error =
    InvalidCookieCount "jsstring option"
  | SessionTooLarge
  | SessionIdRequired
  | KVNotAvailable
  | KVNamespaceNotAvailable jsstring

text \<open>JavaScript truthiness of a string and of a string that may be \<^verbatim>\<open>undefined\<close> or \<^verbatim>\<open>null\<close>.\<close>

definition truthy :: "jsstring option \<Rightarrow> bool" where
  "truthy x = (case x of None \<Rightarrow> False | Some s \<Rightarrow> s \<noteq> [])"

text \<open>Decimal rendering of a non-negative integer, as a template literal or \<^verbatim>\<open>String\<close> gives it.\<close>

fun show_nat :: "nat \<Rightarrow> string" where
  "show_nat n =
     (if n < 10 then [''0123456789'' ! n]
      else show_nat (n div 10) @ [''0123456789'' ! (n mod 10)])"

declare show_nat.simps [simp del]

section \<open>The cookie store (CookieStore.ts)\<close>

text \<open>
  The cookie attributes of \<^verbatim>\<open>CookieOptions\<close>; an attribute that is not given is \<open>None\<close>.
\<close>

record CookieOptions =
  maxAge :: "int option"
  path :: "jsstring option"
  httpOnly :: "bool option"
  secure :: "bool option"
  sameSite :: "jsstring option"
  expires :: "jsstring option"

definition no_options :: CookieOptions where
  "no_options =
     \<lparr>maxAge = None, path = None, httpOnly = None, secure = None, sameSite = None,
      expires = None\<rparr>"

text \<open>
  The request and response surface the store touches: the cookies of the request, read by
  \<^verbatim>\<open>getCookie\<close>, and the calls of \<^verbatim>\<open>setCookie\<close> on the response, in order, each with its
  name, its value and the options argument it was given (\<open>None\<close> for \<^verbatim>\<open>undefined\<close>).
\<close>

type_synonym cookie_write = "jsstring \<times> jsstring \<times> CookieOptions option"

record Context =
  req_cookies :: "jsstring \<rightharpoonup> jsstring"
  res_cookies :: "cookie_write list"


definition setCookie :: "Context \<Rightarrow> jsstring \<Rightarrow> jsstring \<Rightarrow> CookieOptions option \<Rightarrow> Context" where
  "setCookie c name v opts = c\<lparr>res_cookies := res_cookies c @ [(name, v, opts)]\<rparr>"

definition getCookieName :: "jsstring \<Rightarrow> nat \<Rightarrow> jsstring" where
  "getCookieName name index =
     (if index = 0 then name else name @ str ''_'' @ str (show_nat index))"

text \<open>
  The store object. \<^verbatim>\<open>encrypt\<close>, \<^verbatim>\<open>decrypt\<close>, \<^verbatim>\<open>JSON.stringify\<close> and \<^verbatim>\<open>JSON.parse\<close> are
  not part of the store; they are parameters. \<^verbatim>\<open>decrypt\<close> and \<^verbatim>\<open>JSON.parse\<close> give \<open>None\<close>
  where they throw.
\<close>

record CookieStore =
  encryptionKey :: "jsstring option"
  cookieOptions :: "CookieOptions option"
  sessionCookieName :: jsstring

record 'd externals =
  encrypt :: "jsstring \<Rightarrow> jsstring \<Rightarrow> jsstring"
  decrypt :: "jsstring \<Rightarrow> jsstring \<Rightarrow> jsstring option"
  stringify :: "'d SessionData \<Rightarrow> jsstring"
  parse :: "jsstring \<Rightarrow> 'd SessionData option"

text \<open>The constructor: \<^verbatim>\<open>options?.sessionCookieName || "session"\<close>.\<close>

definition new_CookieStore ::
  "jsstring option \<Rightarrow> CookieOptions option \<Rightarrow> jsstring option \<Rightarrow> CookieStore" where
  "new_CookieStore key opts name =
     \<lparr>encryptionKey = key, cookieOptions = opts,
      sessionCookieName = (if truthy name then the name else str ''session'')\<rparr>"


definition is_digit :: "16 word \<Rightarrow> bool" where
  "is_digit u \<longleftrightarrow> 0x30 \<le> u \<and> u \<le> 0x39"

definition digits_value :: "jsstring \<Rightarrow> int" where
  "digits_value ds = foldl (\<lambda>acc u. 10 * acc + (uint u - 0x30)) 0 ds"






text \<open>\<^verbatim>\<open>{ ...this.cookieOptions, maxAge: 0 }\<close>\<close>

definition expire_now :: "CookieOptions option \<Rightarrow> CookieOptions" where
  "expire_now opts = (case opts of None \<Rightarrow> no_options | Some o' \<Rightarrow> o')\<lparr>maxAge := Some 0\<rparr>"

text \<open>
  The clearing writes shared by \<^verbatim>\<open>deleteSession\<close> and \<^verbatim>\<open>persistSessionData\<close>: the loop
  over the ten indexed cookies, then the count cookie.
\<close>

definition clear_cookies :: "CookieStore \<Rightarrow> Context \<Rightarrow> Context" where
  "clear_cookies this c =
     (let c1 = fold (\<lambda>i c'. setCookie c' (getCookieName (sessionCookieName this) i) []
                         (Some (expire_now (cookieOptions this)))) [0..<10] c
      in setCookie c1 (sessionCookieName this @ str ''_count'') [] (cookieOptions this))"

definition deleteSession :: "CookieStore \<Rightarrow> Context \<Rightarrow> Context" where
  "deleteSession this c = clear_cookies this c"

text \<open>The payload of \<^verbatim>\<open>persistSessionData\<close>: the serialised session, encrypted under a key.\<close>

definition cookie_payload :: "CookieStore \<Rightarrow> 'd externals \<Rightarrow> 'd SessionData \<Rightarrow> jsstring" where
  "cookie_payload this ext session_data =
     (let stringified_data = stringify ext session_data
      in if truthy (encryptionKey this)
         then encrypt ext (the (encryptionKey this)) stringified_data
         else stringified_data)"

definition persistSessionData ::
  "CookieStore \<Rightarrow> 'd externals \<Rightarrow> Context \<Rightarrow> 'd SessionData \<Rightarrow> (error + unit) \<times> Context" where
  "persistSessionData this ext c session_data =
     (let splitPayload = chunkStringByBytes (cookie_payload this ext session_data) 4000;
          c1 = clear_cookies this c
      in if length splitPayload = 1 then
           (Inr (), setCookie c1 (sessionCookieName this) (splitPayload ! 0) (cookieOptions this))
         else if length splitPayload > 10 then (Inl SessionTooLarge, c1)
         else if length splitPayload > 1 then
           (let c2 = fold (\<lambda>i c'. setCookie c' (getCookieName (sessionCookieName this) i)
                               (splitPayload ! i) (cookieOptions this))
                       [0..<length splitPayload] c1
            in (Inr (), setCookie c2 (sessionCookieName this @ str ''_count'')
                          (str (show_nat (length splitPayload))) (cookieOptions this)))
         else (Inr (), c1))"

text \<open>
  \<^verbatim>\<open>createSession\<close> calls \<^verbatim>\<open>persistSessionData\<close> without awaiting it: the cookie writes
  are those of \<^verbatim>\<open>persistSessionData\<close>, and its rejection does not reach the caller.
\<close>

definition createSession ::
  "CookieStore \<Rightarrow> 'd externals \<Rightarrow> Context \<Rightarrow> 'd SessionData \<Rightarrow> (error + unit) \<times> Context" where
  "createSession this ext c initial_data =
     (Inr (), snd (persistSessionData this ext c initial_data))"


text \<open>
  The store of the test suite, its stand-ins for the cipher, a serialiser that writes 40001
  bytes and a parser that reads the text \<^verbatim>\<open>{}\<close>, and a request with given cookies.
\<close>

definition test_options :: CookieOptions where
  "test_options = no_options\<lparr>path := Some (str ''/''), httpOnly := Some True\<rparr>"

definition test_store :: CookieStore where
  "test_store =
     new_CookieStore (Some (str ''test-encryption-key-with-at-least-32-chars''))
       (Some test_options) (Some (str ''test-session''))"

definition test_externals :: "unit externals" where
  "test_externals =
     \<lparr>encrypt = (\<lambda>k s. str ''encrypted:'' @ s),
      decrypt = (\<lambda>k s. if take 10 s = str ''encrypted:'' then Some (drop 10 s) else None),
      stringify = (\<lambda>d. replicate 40001 0x61),
      parse = (\<lambda>s. if s = str ''{}'' then Some (session None False None) else None)\<rparr>"

definition request :: "(jsstring \<times> jsstring) list \<Rightarrow> Context" where
  "request cookies = \<lparr>req_cookies = map_of cookies, res_cookies = []\<rparr>"

section \<open>The keyed backend store (CloudflareKVStore.ts)\<close>

text \<open>
  A JavaScript number as the store meets it: \<^verbatim>\<open>NaN\<close> or an integer (a time value in
  milliseconds, an epoch second, a TTL in seconds). \<^verbatim>\<open>undefined\<close> is \<open>None\<close>.
\<close>

datatype number = NaN | Num int

definition number_truthy :: "number option \<Rightarrow> bool" where
  "number_truthy x = (case x of None \<Rightarrow> False | Some NaN \<Rightarrow> False | Some (Num n) \<Rightarrow> n \<noteq> 0)"

text \<open>\<^verbatim>\<open>Math.floor(t / 1000)\<close>\<close>

definition floor_seconds :: "number \<Rightarrow> number" where
  "floor_seconds t = (case t of NaN \<Rightarrow> NaN | Num ms \<Rightarrow> Num (ms div 1000))"

text \<open>
  The options of \<^verbatim>\<open>put\<close>, and the namespace: under each key the value that was put and
  the options it was put with. The value is kept as the session record that
  \<^verbatim>\<open>JSON.stringify\<close> wrote and that \<^verbatim>\<open>get\<close> with type \<^verbatim>\<open>json\<close> reads back. The calls
  of the namespace are taken to succeed.
\<close>

record KVPutOptions =
  expirationTtl :: "number option"
  expiration :: "number option"

record 'd KVEntry =
  kv_value :: "'d SessionData"
  kv_options :: KVPutOptions

type_synonym 'd KVNamespace = "jsstring \<rightharpoonup> 'd KVEntry"

text \<open>
  The request context kept in \<^verbatim>\<open>asyncLocalStore\<close> (\<open>None\<close> outside a request), with its
  bindings \<^verbatim>\<open>env\<close>, and the lines written with \<^verbatim>\<open>console.error\<close>.
\<close>

record 'd HonoContext =
  env :: "(jsstring \<rightharpoonup> 'd KVNamespace) option"

record 'd world =
  asyncLocalStore :: "'d HonoContext option"
  console :: "(string \<times> error) list"

text \<open>
  The clock and the date parser of the run: the value of \<^verbatim>\<open>new Date().toISOString()\<close> and
  the function \<^verbatim>\<open>s \<mapsto> new Date(s).getTime()\<close>.
\<close>

record dates =
  now_iso :: jsstring
  getTime :: "jsstring \<Rightarrow> number"

record CloudflareKVStore =
  kvName :: jsstring
  store_ttl :: number
  prefix :: jsstring

text \<open>
  The constructor: \<^verbatim>\<open>options.expirationTtl || 86400\<close> and \<^verbatim>\<open>options.prefix || "session:"\<close>.
\<close>

definition new_CloudflareKVStore ::
  "jsstring \<Rightarrow> number option \<Rightarrow> jsstring option \<Rightarrow> CloudflareKVStore" where
  "new_CloudflareKVStore kv_name ttl pre =
     \<lparr>kvName = kv_name,
      store_ttl = (if number_truthy ttl then the ttl else Num 86400),
      prefix = (if truthy pre then the pre else str ''session:'')\<rparr>"

text \<open>The getter \<^verbatim>\<open>kv\<close>.\<close>

definition kv :: "CloudflareKVStore \<Rightarrow> 'd world \<Rightarrow> error + 'd KVNamespace" where
  "kv this w =
     (case asyncLocalStore w of
        None \<Rightarrow> Inl KVNotAvailable
      | Some context \<Rightarrow>
          (case env context of
             None \<Rightarrow> Inl (KVNamespaceNotAvailable (kvName this))
           | Some e \<Rightarrow>
               (case e (kvName this) of
                  None \<Rightarrow> Inl (KVNamespaceNotAvailable (kvName this))
                | Some ns \<Rightarrow> Inr ns)))"

text \<open>The effect of a \<^verbatim>\<open>put\<close> or \<^verbatim>\<open>delete\<close> on the bound namespace.\<close>

definition set_kv :: "CloudflareKVStore \<Rightarrow> 'd world \<Rightarrow> 'd KVNamespace \<Rightarrow> 'd world" where
  "set_kv this w ns =
     w\<lparr>asyncLocalStore :=
         map_option (\<lambda>context. context\<lparr>env := map_option (\<lambda>e. e(kvName this \<mapsto> ns)) (env context)\<rparr>)
           (asyncLocalStore w)\<rparr>"

definition console_error :: "string \<Rightarrow> error \<Rightarrow> 'd world \<Rightarrow> 'd world" where
  "console_error msg e w = w\<lparr>console := console w @ [(msg, e)]\<rparr>"

definition getKeyFromSessionId :: "CloudflareKVStore \<Rightarrow> jsstring \<Rightarrow> jsstring" where
  "getKeyFromSessionId this sessionId = prefix this @ sessionId"

definition kv_deleteSession ::
  "CloudflareKVStore \<Rightarrow> 'd world \<Rightarrow> jsstring \<Rightarrow> (error + unit) \<times> 'd world" where
  "kv_deleteSession this w sessionId =
     (if sessionId = [] then (Inl SessionIdRequired, w)
      else
        (let key = getKeyFromSessionId this sessionId in
         case kv this w of
           Inl e \<Rightarrow> (Inl e, console_error ''Error deleting session:'' e w)
         | Inr ns \<Rightarrow> (Inr (), set_kv this w (ns(key := None)))))"

text \<open>The three results of \<^verbatim>\<open>getSessionById\<close>: \<^verbatim>\<open>undefined\<close>, \<^verbatim>\<open>null\<close> or a session.\<close>

datatype 'a lookup = Undefined | Null | Found 'a

definition getSessionById ::
  "CloudflareKVStore \<Rightarrow> dates \<Rightarrow> 'd world \<Rightarrow> jsstring option
     \<Rightarrow> 'd SessionData lookup \<times> 'd world" where
  "getSessionById this d w sessionId =
     (if \<not> truthy sessionId then (Undefined, w)
      else
        (let key = getKeyFromSessionId this (the sessionId) in
         case kv this w of
           Inl e \<Rightarrow> (Null, console_error ''Error retrieving session:'' e w)
         | Inr ns \<Rightarrow>
             (case ns key of
                None \<Rightarrow> (Null, w)
              | Some entry \<Rightarrow>
                  (let sessionData = (kv_value entry)\<lparr>s_accessed := Some (now_iso d)\<rparr> in
                   if s_delete sessionData then
                     (case kv_deleteSession this w (the sessionId) of
                        (Inl e, w') \<Rightarrow> (Null, console_error ''Error retrieving session:'' e w')
                      | (Inr u, w') \<Rightarrow> (Null, w'))
                   else (Found sessionData, w)))))"

text \<open>
  The expiration computed from \<^verbatim>\<open>_expire\<close>, and the options object of the \<^verbatim>\<open>put\<close>:
  \<^verbatim>\<open>{ expirationTtl: expiration ? undefined : this.expirationTtl, expiration: expiration }\<close>.
\<close>

definition expiration_of :: "dates \<Rightarrow> 'd SessionData \<Rightarrow> number option" where
  "expiration_of d sessionData =
     (if truthy (s_expire sessionData)
      then Some (floor_seconds (getTime d (the (s_expire sessionData))))
      else None)"

definition put_options :: "CloudflareKVStore \<Rightarrow> number option \<Rightarrow> KVPutOptions" where
  "put_options this expir =
     \<lparr>expirationTtl = (if number_truthy expir then None else Some (store_ttl this)),
      expiration = expir\<rparr>"

definition kv_createSession ::
  "CloudflareKVStore \<Rightarrow> dates \<Rightarrow> 'd world \<Rightarrow> jsstring \<Rightarrow> 'd SessionData
     \<Rightarrow> (error + unit) \<times> 'd world" where
  "kv_createSession this d w sessionId initialData =
     (if sessionId = [] then (Inl SessionIdRequired, w)
      else
        (let key = getKeyFromSessionId this sessionId;
             initialData' = (if \<not> truthy (s_accessed initialData)
                             then initialData\<lparr>s_accessed := Some (now_iso d)\<rparr>
                             else initialData);
             expir = expiration_of d initialData'
         in case kv this w of
              Inl e \<Rightarrow> (Inl e, console_error ''Error creating session:'' e w)
            | Inr ns \<Rightarrow>
                (Inr (),
                 set_kv this w
                   (ns(key \<mapsto> \<lparr>kv_value = initialData', kv_options = put_options this expir\<rparr>)))))"

definition kv_persistSessionData ::
  "CloudflareKVStore \<Rightarrow> dates \<Rightarrow> 'd world \<Rightarrow> jsstring \<Rightarrow> 'd SessionData
     \<Rightarrow> (error + unit) \<times> 'd world" where
  "kv_persistSessionData this d w sessionId sessionData0 =
     (if sessionId = [] then (Inl SessionIdRequired, w)
      else
        (let key = getKeyFromSessionId this sessionId;
             sessionData = sessionData0\<lparr>s_accessed := Some (now_iso d)\<rparr>
         in if s_delete sessionData then
              (case kv_deleteSession this w sessionId of
                 (Inl e, w') \<Rightarrow> (Inl e, console_error ''Error persisting session data:'' e w')
               | (Inr u, w') \<Rightarrow> (Inr (), w'))
            else
              (let expir = expiration_of d sessionData in
               case kv this w of
                 Inl e \<Rightarrow> (Inl e, console_error ''Error persisting session data:'' e w)
               | Inr ns \<Rightarrow>
                   (Inr (),
                    set_kv this w
                      (ns(key \<mapsto> \<lparr>kv_value = sessionData, kv_options = put_options this expir\<rparr>))))))"

text \<open>
  A date parser for the concrete evaluations: the time value of a string in the format
  that \<^verbatim>\<open>toISOString\<close> writes, \<^verbatim>\<open>YYYY-MM-DDTHH:mm:ss.sssZ\<close>. It is narrower than
  \<^verbatim>\<open>Date\<close>: other strings that \<^verbatim>\<open>Date\<close> parses (no milliseconds, hour 24) are
  \<^verbatim>\<open>NaN\<close> here, so it is only applied to strings of that format. The general
  statements hold for every \<open>getTime\<close>.
\<close>

definition dec :: "jsstring \<Rightarrow> int option" where
  "dec s = (if s \<noteq> [] \<and> list_all is_digit s then Some (digits_value s) else None)"

definition days_from_civil :: "int \<Rightarrow> int \<Rightarrow> int \<Rightarrow> int" where
  "days_from_civil y m dd =
     (let y' = (if m \<le> 2 then y - 1 else y);
          era = y' div 400;
          yoe = y' - era * 400;
          doy = (153 * (if m > 2 then m - 3 else m + 9) + 2) div 5 + dd - 1;
          doe = yoe * 365 + yoe div 4 - yoe div 100 + doy
      in era * 146097 + doe - 719468)"

definition iso_time :: "jsstring \<Rightarrow> number" where
  "iso_time s =
     (if length s = 24 \<and> s ! 4 = 0x2D \<and> s ! 7 = 0x2D \<and> s ! 10 = 0x54 \<and> s ! 13 = 0x3A \<and>
         s ! 16 = 0x3A \<and> s ! 19 = 0x2E \<and> s ! 23 = 0x5A
      then
        (case (dec (take 4 s), dec (take 2 (drop 5 s)), dec (take 2 (drop 8 s)),
               dec (take 2 (drop 11 s)), dec (take 2 (drop 14 s)), dec (take 2 (drop 17 s)),
               dec (take 3 (drop 20 s))) of
           (Some y, Some m, Some dd, Some h, Some mi, Some sec, Some ms) \<Rightarrow>
             if 1 \<le> m \<and> m \<le> 12 \<and> 1 \<le> dd \<and> dd \<le> 31 \<and> h \<le> 23 \<and> mi \<le> 59 \<and> sec \<le> 59
             then Num ((((days_from_civil y m dd * 24 + h) * 60 + mi) * 60 + sec) * 1000 + ms)
             else NaN
         | _ \<Rightarrow> NaN)
      else NaN)"

text \<open>The record under a key of the bound namespace, \<open>None\<close> without a binding.\<close>

definition stored :: "CloudflareKVStore \<Rightarrow> 'd world \<Rightarrow> jsstring \<Rightarrow> 'd KVEntry option" where
  "stored this w key = (case kv this w of Inl e \<Rightarrow> None | Inr ns \<Rightarrow> ns key)"

text \<open>The store, the clock and the bound namespace of the test suite.\<close>

definition kv_store :: CloudflareKVStore where
  "kv_store = new_CloudflareKVStore (str ''MY_KV'') None None"

definition test_dates :: dates where
  "test_dates = \<lparr>now_iso = str ''2024-01-01T00:00:00.000Z'', getTime = iso_time\<rparr>"

definition bound_world :: "(jsstring \<times> 'd KVEntry) list \<Rightarrow> 'd world" where
  "bound_world entries =
     \<lparr>asyncLocalStore = Some \<lparr>env = Some [str ''MY_KV'' \<mapsto> map_of entries]\<rparr>, console = []\<rparr>"

definition unbound_world :: "unit world" where
  "unbound_world = \<lparr>asyncLocalStore = None, console = []\<rparr>"

section \<open>Auxiliary notions for the proofs about the codec\<close>

text \<open>
  A code point string is one code unit or a surrogate pair. A list of code point strings is
  well formed when no lone leading surrogate stands directly before a string that starts
  with a trailing surrogate: exactly the lists the string iterator can yield.
\<close>

definition is_cp :: "jsstring \<Rightarrow> bool" where
  "is_cp c \<longleftrightarrow> (\<exists>u. c = [u]) \<or> (\<exists>u v. c = [u, v] \<and> is_lead u \<and> is_trail v)"

fun wf_cps :: "jsstring list \<Rightarrow> bool" where
  "wf_cps [] = True"
| "wf_cps [c] = is_cp c"
| "wf_cps (c # d # cs) =
     (is_cp c \<and> \<not> (\<exists>u v r. c = [u] \<and> is_lead u \<and> d = v # r \<and> is_trail v) \<and> wf_cps (d # cs))"

text \<open>The sum of the UTF-8 lengths of a list of code points, as the loop counts them.\<close>

definition char_bytes :: "jsstring list \<Rightarrow> nat" where
  "char_bytes cs = sum_list (map (\<lambda>c. length (encode c)) cs)"

text \<open>
  The same loop as \<open>chunk_loop\<close>, keeping every chunk as the list of its code points
  instead of their concatenation. It takes the same branch at every step.
\<close>

fun group_loop ::
  "int \<Rightarrow> jsstring list \<Rightarrow> jsstring list list \<Rightarrow> jsstring list \<Rightarrow> nat
     \<Rightarrow> jsstring list list \<times> jsstring list"
where
  "group_loop maxBytes [] gs g currentBytes = (gs, g)"
| "group_loop maxBytes (char # rest) gs g currentBytes =
     (let charBytes = length (encode char) in
      if int currentBytes + int charBytes > maxBytes
      then group_loop maxBytes rest (gs @ [g]) [char] charBytes
      else group_loop maxBytes rest gs (g @ [char]) (currentBytes + charBytes))"

section \<open>Properties of the chunking codec\<close>

lemmas js_defs = chunkStringByBytes_def encode_def utf8_def is_lead_def is_trail_def str_def

lemma concat_code_points: "concat (code_points s) = s"
  by (induction s rule: code_points.induct) auto

lemma is_cp_nonempty: "is_cp c \<Longrightarrow> c \<noteq> []"
  by (auto simp: is_cp_def)

lemma code_points_is_cp: "is_cp c \<Longrightarrow> code_points c = [c]"
  by (auto simp: is_cp_def)

lemma wf_cps_code_points: "wf_cps (code_points s)"
proof (induction s rule: code_points.induct)
  case 1
  show ?case by simp
next
  case (2 u)
  show ?case by (simp add: is_cp_def)
next
  case (3 u v r)
  show ?case
  proof (cases "is_lead u \<and> is_trail v")
    case True
    with 3 show ?thesis
      by (cases "code_points r") (auto simp: is_cp_def)
  next
    case False
    with 3 show ?thesis
      by (cases r) (auto simp: is_cp_def)
  qed
qed

lemma wf_cps_Cons: "wf_cps (c # cs) \<Longrightarrow> is_cp c \<and> wf_cps cs"
  by (cases cs) auto

lemma wf_cps_all: "wf_cps cs \<Longrightarrow> c \<in> set cs \<Longrightarrow> is_cp c"
  by (induction cs) (auto dest: wf_cps_Cons)

lemma wf_cps_append: "wf_cps (xs @ ys) \<Longrightarrow> wf_cps xs \<and> wf_cps ys"
proof (induction xs rule: wf_cps.induct)
  case 1
  then show ?case by simp
next
  case (2 c)
  then show ?case by (cases ys) (auto dest: wf_cps_Cons)
next
  case (3 c d cs)
  then show ?case by auto
qed

lemma code_points_concat: "wf_cps cs \<Longrightarrow> code_points (concat cs) = cs"
proof (induction cs rule: wf_cps.induct)
  case 1
  show ?case by simp
next
  case (2 c)
  then show ?case by (simp add: code_points_is_cp)
next
  case (3 c d cs)
  then have ih: "code_points (concat (d # cs)) = d # cs" and cp: "is_cp c" and dp: "is_cp d"
    and nl: "\<not> (\<exists>u v r. c = [u] \<and> is_lead u \<and> d = v # r \<and> is_trail v)"
    by (auto dest: wf_cps_Cons)
  from dp obtain v r where d: "d = v # r" by (cases d) (auto simp: is_cp_def)
  from cp show ?case
    unfolding is_cp_def
  proof (elim disjE exE conjE)
    fix u assume c: "c = [u]"
    with nl d have "\<not> (is_lead u \<and> is_trail v)" by auto
    with ih c d show ?thesis by simp
  next
    fix u w assume "c = [u, w]" "is_lead u" "is_trail w"
    with ih show ?thesis by simp
  qed
qed

lemma wf_cps_groups: "wf_cps (concat gs) \<Longrightarrow> g \<in> set gs \<Longrightarrow> wf_cps g"
  by (induction gs) (auto dest: wf_cps_append)

lemma encode_is_cp: "is_cp c \<Longrightarrow> encode c = utf8 (scalar_value c)"
  by (simp add: encode_def code_points_is_cp)

lemma encode_concat: "wf_cps g \<Longrightarrow> encode (concat g) = concat (map encode g)"
proof -
  assume w: "wf_cps g"
  then have "\<forall>c\<in>set g. encode c = utf8 (scalar_value c)"
    by (auto dest: wf_cps_all encode_is_cp)
  then have m: "map encode g = map (\<lambda>c. utf8 (scalar_value c)) g" by simp
  have "encode (concat g) = concat (map (\<lambda>c. utf8 (scalar_value c)) g)"
    using w by (simp only: encode_def code_points_concat)
  then show ?thesis by (simp only: m)
qed

lemma length_encode_concat: "wf_cps g \<Longrightarrow> length (encode (concat g)) = char_bytes g"
  by (simp add: encode_concat char_bytes_def length_concat comp_def)

lemma chunk_loop_group_loop:
  "chunk_loop B cs (map concat gs) (concat g) cb =
     map_prod (map concat) concat (group_loop B cs gs g cb)"
proof (induction cs arbitrary: gs g cb)
  case Nil
  show ?case by simp
next
  case (Cons c cs)
  have a: "chunk_loop B cs (map concat gs @ [concat g]) c n =
      map_prod (map concat) concat (group_loop B cs (gs @ [g]) [c] n)" for n
    using Cons [of "gs @ [g]" "[c]" n] by simp
  have d: "chunk_loop B cs (map concat gs) (concat g @ c) n =
      map_prod (map concat) concat (group_loop B cs gs (g @ [c]) n)" for n
    using Cons [of gs "g @ [c]" n] by simp
  show ?case
    by (simp add: Let_def a d)
qed

lemma group_loop_concat:
  "group_loop B cs gs g cb = (gs', g') \<Longrightarrow> concat gs' @ g' = concat gs @ g @ cs"
  by (induction cs arbitrary: gs g cb) (auto simp: Let_def split: if_splits)


lemma concat_map_concat: "concat (map concat xss) = concat (concat xss)"
  by (induction xss) auto

lemma concat_nonempty: "g \<noteq> [] \<Longrightarrow> \<forall>c\<in>set g. c \<noteq> [] \<Longrightarrow> concat g \<noteq> []"
  by (cases g) auto

lemma group_loop_result:
  obtains gs where "concat gs = code_points s"
    and "chunkStringByBytes s B = map concat gs"
    and "\<exists>gs' g'. group_loop B (code_points s) [] [] 0 = (gs', g') \<and>
           gs = (if g' \<noteq> [] then gs' @ [g'] else gs')"
proof -
  obtain gs' g' where gl: "group_loop B (code_points s) [] [] 0 = (gs', g')"
    by (cases "group_loop B (code_points s) [] [] 0") auto
  have cl: "chunk_loop B (code_points s) [] [] 0 = (map concat gs', concat g')"
    using chunk_loop_group_loop [of B "code_points s" "[]" "[]" 0] gl by simp
  have cc: "concat gs' @ g' = code_points s"
    using group_loop_concat [OF gl] by simp
  have "set g' \<subseteq> set (code_points s)"
    by (subst cc [symmetric]) simp
  then have ne: "\<forall>c\<in>set g'. c \<noteq> []"
    using wf_cps_all [OF wf_cps_code_points, of _ s] is_cp_nonempty by blast
  have iff: "concat g' \<noteq> [] \<longleftrightarrow> g' \<noteq> []"
    using ne concat_nonempty [of g'] by auto
  define gs where "gs = (if g' \<noteq> [] then gs' @ [g'] else gs')"
  have 1: "concat gs = code_points s"
    using cc by (auto simp: gs_def)
  have 2: "chunkStringByBytes s B = map concat gs"
    using iff by (auto simp: chunkStringByBytes_def cl gs_def)
  show thesis
    using that [OF 1 2] gl gs_def by blast
qed

text \<open>
  Claim C1. Concatenating the chunks of \<open>chunkStringByBytes s maxBytes\<close> in order gives
  back \<open>s\<close>, code unit for code unit; the chunks are the concatenations of consecutive
  groups of whole code points of \<open>s\<close>, so no code point is divided between two chunks;
  and the UTF-8 encodings of the chunks, joined, are the UTF-8 encoding of \<open>s\<close>.
  This holds for every \<open>maxBytes\<close>, in particular for \<open>maxBytes \<ge> 1\<close>.
\<close>

theorem chunks_concat:
  "concat (chunkStringByBytes s maxBytes) = s \<and>
   (\<exists>gs. concat gs = code_points s \<and> chunkStringByBytes s maxBytes = map concat gs) \<and>
   concat (map encode (chunkStringByBytes s maxBytes)) = encode s"
proof -
  obtain gs where 1: "concat gs = code_points s"
    and 2: "chunkStringByBytes s maxBytes = map concat gs"
    by (rule group_loop_result)
  have a: "concat (map concat gs) = s"
    using 1 concat_code_points [of s] by (simp add: concat_map_concat)
  have w: "wf_cps (concat gs)"
    using 1 wf_cps_code_points [of s] by simp
  have "\<forall>g\<in>set gs. encode (concat g) = concat (map encode g)"
    using wf_cps_groups [OF w] encode_concat by blast
  then have "concat (map encode (map concat gs)) = concat (map encode (concat gs))"
    by (induction gs) auto
  also have "\<dots> = encode (concat (concat gs))"
    using encode_concat [OF w] by simp
  also have "\<dots> = encode s"
    using 1 concat_code_points [of s] by simp
  finally have b: "concat (map encode (map concat gs)) = encode s" .
  show ?thesis
    using 1 2 a b by auto
qed


theorem chunks_concat_witness:
  "chunkStringByBytes [0x61, 0xD83D, 0xDE00, 0x62] 3 = [[0x61], [0xD83D, 0xDE00], [0x62]] \<and>
   concat (chunkStringByBytes [0x61, 0xD83D, 0xDE00, 0x62] 3) = [0x61, 0xD83D, 0xDE00, 0x62] \<and>
   (\<exists>gs. concat gs = code_points [0x61, 0xD83D, 0xDE00, 0x62] \<and>
      chunkStringByBytes [0x61, 0xD83D, 0xDE00, 0x62] 3 = map concat gs) \<and>
   concat (map encode (chunkStringByBytes [0x61, 0xD83D, 0xDE00, 0x62] 3)) =
     encode [0x61, 0xD83D, 0xDE00, 0x62]"
proof -
  have "chunkStringByBytes [0x61, 0xD83D, 0xDE00, 0x62] 3 = [[0x61], [0xD83D, 0xDE00], [0x62]]"
    by (simp add: js_defs)
  then show ?thesis
    using chunks_concat [of "[0x61, 0xD83D, 0xDE00, 0x62]" 3] by blast
qed

lemma char_bytes_simps [simp]:
  "char_bytes [] = 0"
  "char_bytes (c # cs) = length (encode c) + char_bytes cs"
  "char_bytes (xs @ ys) = char_bytes xs + char_bytes ys"
  by (simp_all add: char_bytes_def)

lemma group_loop_bound:
  "\<forall>c\<in>set cs. int (length (encode c)) \<le> B \<Longrightarrow> cb = char_bytes g \<Longrightarrow> int cb \<le> B \<Longrightarrow>
   \<forall>x\<in>set gs. x \<noteq> [] \<and> int (char_bytes x) \<le> B \<Longrightarrow>
   group_loop B cs gs g cb = (gs', g') \<Longrightarrow>
   (\<forall>x\<in>set gs'. x \<noteq> [] \<and> int (char_bytes x) \<le> B) \<and> int (char_bytes g') \<le> B"
proof (induction cs arbitrary: gs g cb)
  case Nil
  then show ?case by simp
next
  case (Cons c cs)
  let ?n = "length (encode c)"
  from Cons.prems have n: "int ?n \<le> B" and rest: "\<forall>c\<in>set cs. int (length (encode c)) \<le> B"
    by simp_all
  show ?case
  proof (cases "int cb + int ?n > B")
    case True
    with n Cons.prems(2) have "g \<noteq> []" by auto
    with Cons.prems have inv: "\<forall>x\<in>set (gs @ [g]). x \<noteq> [] \<and> int (char_bytes x) \<le> B"
      by auto
    from True Cons.prems(5) have "group_loop B cs (gs @ [g]) [c] ?n = (gs', g')"
      by (simp add: Let_def)
    from Cons.IH [OF rest _ _ inv this] n show ?thesis by simp
  next
    case False
    with Cons.prems(5) have "group_loop B cs gs (g @ [c]) (cb + ?n) = (gs', g')"
      by (simp add: Let_def)
    from Cons.IH [OF rest _ _ Cons.prems(4) this] False Cons.prems(2) show ?thesis by simp
  qed
qed

text \<open>
  Claim C10. When \<open>maxBytes \<ge> 1\<close> and the UTF-8 encoding of every code point of the
  input is at most \<open>maxBytes\<close> bytes long, every chunk returned by
  \<open>chunkStringByBytes\<close> is a non-empty string of at most \<open>maxBytes\<close> UTF-8 bytes.
\<close>

theorem chunks_bounded:
  assumes "1 \<le> maxBytes"
    and "\<forall>c\<in>set (code_points s). int (length (encode c)) \<le> maxBytes"
  shows "\<forall>chunk\<in>set (chunkStringByBytes s maxBytes).
           chunk \<noteq> [] \<and> int (length (encode chunk)) \<le> maxBytes"
proof
  fix chunk
  assume mem: "chunk \<in> set (chunkStringByBytes s maxBytes)"
  show "chunk \<noteq> [] \<and> int (length (encode chunk)) \<le> maxBytes"
  proof -
  obtain gs where 1: "concat gs = code_points s"
    and 2: "chunkStringByBytes s maxBytes = map concat gs"
    and 3: "\<exists>gs' g'. group_loop maxBytes (code_points s) [] [] 0 = (gs', g') \<and>
           gs = (if g' \<noteq> [] then gs' @ [g'] else gs')"
    by (rule group_loop_result)
  from 3 obtain gs' g' where gl: "group_loop maxBytes (code_points s) [] [] 0 = (gs', g')"
    and gs: "gs = (if g' \<noteq> [] then gs' @ [g'] else gs')" by blast
  have "(\<forall>x\<in>set gs'. x \<noteq> [] \<and> int (char_bytes x) \<le> maxBytes) \<and> int (char_bytes g') \<le> maxBytes"
    using group_loop_bound [OF assms(2) _ _ _ gl] assms(1) by simp
  then have inv: "\<forall>x\<in>set gs. x \<noteq> [] \<and> int (char_bytes x) \<le> maxBytes"
    by (auto simp: gs)
  from mem 2 obtain g where g: "g \<in> set gs" and c: "chunk = concat g" by auto
  have w: "wf_cps g"
    using wf_cps_groups [of gs g] 1 wf_cps_code_points [of s] g by simp
  then have "\<forall>c\<in>set g. c \<noteq> []"
    using wf_cps_all is_cp_nonempty by blast
  with inv g have "concat g \<noteq> []"
    using concat_nonempty by blast
  moreover have "int (length (encode (concat g))) \<le> maxBytes"
    using inv g length_encode_concat [OF w] by simp
  ultimately show ?thesis by (simp add: c)
  qed
qed

theorem chunks_bounded_witness:
  "(1::int) \<le> 4 \<and>
   list_all (\<lambda>c. int (length (encode c)) \<le> 4) (code_points [0x61, 0xD83D, 0xDE00, 0x62, 0x20AC]) \<and>
   chunkStringByBytes [0x61, 0xD83D, 0xDE00, 0x62, 0x20AC] 4 =
     [[0x61], [0xD83D, 0xDE00], [0x62, 0x20AC]] \<and>
   list_all (\<lambda>chunk. chunk \<noteq> [] \<and> int (length (encode chunk)) \<le> 4)
     (chunkStringByBytes [0x61, 0xD83D, 0xDE00, 0x62, 0x20AC] 4)"
proof -
  have h1: "(1::int) \<le> 4" by simp
  have h2: "\<forall>c\<in>set (code_points [0x61, 0xD83D, 0xDE00, 0x62, 0x20AC]).
      int (length (encode c)) \<le> 4"
    by (simp add: js_defs)
  have h3: "chunkStringByBytes [0x61, 0xD83D, 0xDE00, 0x62, 0x20AC] 4 =
     [[0x61], [0xD83D, 0xDE00], [0x62, 0x20AC]]"
    by (simp add: js_defs)
  show ?thesis
    unfolding list_all_iff using chunks_bounded [OF h1 h2] h1 h2 h3 by blast
qed

lemma group_loop_fits:
  "int cb + int (char_bytes cs) \<le> B \<Longrightarrow> group_loop B cs gs g cb = (gs, g @ cs)"
  by (induction cs arbitrary: g cb) (auto simp: Let_def)

lemma char_bytes_code_points: "char_bytes (code_points s) = length (encode s)"
  using length_encode_concat [OF wf_cps_code_points, of s] by (simp add: concat_code_points)

lemma code_points_Nil_iff: "code_points s = [] \<longleftrightarrow> s = []"
  by (cases s rule: code_points.cases) auto

lemma chunk_single:
  assumes "s \<noteq> []" and "int (length (encode s)) \<le> B"
  shows "chunkStringByBytes s B = [s]"
proof -
  have "group_loop B (code_points s) [] [] 0 = ([], code_points s)"
    using group_loop_fits [of 0 "code_points s" B "[]" "[]"] assms(2)
    by (simp add: char_bytes_code_points)
  then have "chunk_loop B (code_points s) [] [] 0 = ([], s)"
    using chunk_loop_group_loop [of B "code_points s" "[]" "[]" 0]
    by (simp add: concat_code_points)
  with assms(1) show ?thesis
    by (simp add: chunkStringByBytes_def)
qed

lemma ceil_div_pos:
  fixes a b :: int
  assumes "0 < b"
  shows "\<lceil>real_of_int a / real_of_int b\<rceil> = (a + b - 1) div b"
proof (rule ceiling_unique)
  define q where "q = (a + b - 1) div b"
  define r where "r = (a + b - 1) mod b"
  have r: "0 \<le> r" "r < b" using assms by (simp_all add: r_def)
  have eq: "a + b - 1 = q * b + r" by (simp add: q_def r_def)
  have lo: "(q - 1) * b < a" using eq r by (simp add: algebra_simps)
  have hi: "a \<le> q * b" using eq r by (simp add: algebra_simps)
  have b: "0 < real_of_int b" using assms by simp
  have "real_of_int ((q - 1) * b) < real_of_int a" using lo by linarith
  then have "(real_of_int q - 1) * real_of_int b < real_of_int a" by simp
  then have "real_of_int q - 1 < real_of_int a / real_of_int b"
    using b by (simp add: pos_less_divide_eq)
  then show "real_of_int ((a + b - 1) div b) - 1 < real_of_int a / real_of_int b"
    by (simp add: q_def)
  have "real_of_int a \<le> real_of_int (q * b)" using hi by linarith
  then have "real_of_int a \<le> real_of_int q * real_of_int b" by simp
  then have "real_of_int a / real_of_int b \<le> real_of_int q"
    using b by (simp add: pos_divide_le_eq)
  then show "real_of_int a / real_of_int b \<le> real_of_int ((a + b - 1) div b)"
    by (simp add: q_def)
qed

lemma div_small:
  fixes n B :: int
  assumes "1 \<le> B" and "0 \<le> n" and "n \<le> B"
  shows "(n + B - 1) div B = (if n = 0 then 0 else 1)"
proof (cases "n = 0")
  case True
  with assms show ?thesis by simp
next
  case False
  with assms have "(n - 1) div B = 0" by simp
  moreover have "(n + B - 1) div B = ((n - 1) + B) div B" by (simp add: algebra_simps)
  ultimately have "(n + B - 1) div B = 1"
    using assms(1) by simp
  with False show ?thesis by simp
qed

lemma char_bytes_single: "\<forall>c\<in>set cs. length (encode c) = 1 \<Longrightarrow> char_bytes cs = length cs"
  by (induction cs) auto

lemma group_loop_count:
  "1 \<le> B \<Longrightarrow> \<forall>c\<in>set cs. length (encode c) = 1 \<Longrightarrow> int cb \<le> B \<Longrightarrow> cb = length g \<Longrightarrow>
   group_loop B cs gs g cb = (gs', g') \<Longrightarrow>
   int (length gs') + (if g' \<noteq> [] then 1 else 0) =
     int (length gs) + (int cb + int (length cs) + B - 1) div B"
proof (induction cs arbitrary: gs g cb)
  case Nil
  then show ?case
    using div_small [of B "int (length g)"] by auto
next
  case (Cons c cs)
  from Cons.prems have one: "length (encode c) = 1" and rest: "\<forall>c\<in>set cs. length (encode c) = 1"
    by simp_all
  show ?case
  proof (cases "int cb + 1 > B")
    case True
    with Cons.prems(3) have cb: "int cb = B" by simp
    from True Cons.prems(5) one have "group_loop B cs (gs @ [g]) [c] 1 = (gs', g')"
      by (simp add: Let_def)
    from Cons.IH [OF Cons.prems(1) rest _ _ this] Cons.prems(1)
    have "int (length gs') + (if g' \<noteq> [] then 1 else 0) =
        int (length gs) + 1 + (int (length cs) + B) div B"
      by simp
    moreover have "(int cb + int (length (c # cs)) + B - 1) div B = (int (length cs) + B) div B + 1"
      using Cons.prems(1) by (simp add: cb)
    ultimately show ?thesis by simp
  next
    case False
    with Cons.prems(5) one have "group_loop B cs gs (g @ [c]) (cb + 1) = (gs', g')"
      by (simp add: Let_def)
    from Cons.IH [OF Cons.prems(1) rest _ _ this] False Cons.prems(4)
    show ?thesis by (simp add: algebra_simps)
  qed
qed

lemma chunk_count_single_byte:
  assumes "\<forall>c\<in>set (code_points s). length (encode c) = 1" and "1 \<le> B"
  shows "int (length (chunkStringByBytes s B)) = (int (length (encode s)) + B - 1) div B"
proof -
  obtain gs where 2: "chunkStringByBytes s B = map concat gs"
    and 3: "\<exists>gs' g'. group_loop B (code_points s) [] [] 0 = (gs', g') \<and>
           gs = (if g' \<noteq> [] then gs' @ [g'] else gs')"
    by (rule group_loop_result)
  from 3 obtain gs' g' where gl: "group_loop B (code_points s) [] [] 0 = (gs', g')"
    and gs: "gs = (if g' \<noteq> [] then gs' @ [g'] else gs')" by blast
  have len: "length (encode s) = length (code_points s)"
    using assms(1) char_bytes_single [of "code_points s"] by (simp add: char_bytes_code_points)
  have "int (length gs') + (if g' \<noteq> [] then 1 else 0) =
      (int (length (code_points s)) + B - 1) div B"
    using group_loop_count [OF _ _ _ _ gl] assms by simp
  then have "int (length gs) = (int (length (encode s)) + B - 1) div B"
    by (simp add: gs len split: if_splits)
  then show ?thesis
    by (simp add: 2)
qed

text \<open>
  Claim C2. The empty string gives no chunk; a non-empty input of at most \<open>maxBytes\<close>
  UTF-8 bytes gives the one chunk equal to the input; and a non-empty input whose code
  points all take one byte, of byte length \<open>L\<close>, split with a positive \<open>maxBytes = B\<close>,
  gives exactly \<open>\<lceil>L / B\<rceil>\<close> chunks.
\<close>

theorem chunk_edge_cases:
  "chunkStringByBytes [] maxBytes = [] \<and>
   (s \<noteq> [] \<and> int (length (encode s)) \<le> maxBytes \<longrightarrow> chunkStringByBytes s maxBytes = [s]) \<and>
   (s \<noteq> [] \<and> (\<forall>c\<in>set (code_points s). length (encode c) = 1) \<and> 1 \<le> maxBytes \<longrightarrow>
      int (length (chunkStringByBytes s maxBytes)) =
        \<lceil>real (length (encode s)) / real_of_int maxBytes\<rceil>)"
proof (intro conjI impI)
  show "chunkStringByBytes [] maxBytes = []"
    by (simp add: chunkStringByBytes_def)
next
  assume "s \<noteq> [] \<and> int (length (encode s)) \<le> maxBytes"
  then show "chunkStringByBytes s maxBytes = [s]"
    by (simp add: chunk_single)
next
  assume a: "s \<noteq> [] \<and> (\<forall>c\<in>set (code_points s). length (encode c) = 1) \<and> 1 \<le> maxBytes"
  then have "int (length (chunkStringByBytes s maxBytes)) =
      (int (length (encode s)) + maxBytes - 1) div maxBytes"
    by (simp add: chunk_count_single_byte)
  also have "\<dots> = \<lceil>real_of_int (int (length (encode s))) / real_of_int maxBytes\<rceil>"
    using ceil_div_pos [of maxBytes "int (length (encode s))"] a by simp
  finally show "int (length (chunkStringByBytes s maxBytes)) =
        \<lceil>real (length (encode s)) / real_of_int maxBytes\<rceil>"
    by simp
qed

theorem chunk_edge_cases_witness:
  "chunkStringByBytes [] 3 = [] \<and>
   str ''abc'' \<noteq> [] \<and> int (length (encode (str ''abc''))) \<le> 3 \<and>
   chunkStringByBytes (str ''abc'') 3 = [str ''abc''] \<and>
   str ''abcdefg'' \<noteq> [] \<and>
   list_all (\<lambda>c. length (encode c) = 1) (code_points (str ''abcdefg'')) \<and> (1::int) \<le> 3 \<and>
   int (length (chunkStringByBytes (str ''abcdefg'') 3)) =
     \<lceil>real (length (encode (str ''abcdefg''))) / real_of_int 3\<rceil> \<and>
   length (chunkStringByBytes (str ''abcdefg'') 3) = 3"
proof -
  have h1: "str ''abc'' \<noteq> [] \<and> int (length (encode (str ''abc''))) \<le> 3"
    by (simp add: js_defs)
  have h2: "str ''abcdefg'' \<noteq> [] \<and>
      (\<forall>c\<in>set (code_points (str ''abcdefg'')). length (encode c) = 1) \<and> (1::int) \<le> 3"
    by (simp add: js_defs)
  have h3: "length (chunkStringByBytes (str ''abcdefg'') 3) = 3"
    by (simp add: js_defs)
  show ?thesis
    unfolding list_all_iff
    using chunk_edge_cases [of 3 "str ''abc''"] chunk_edge_cases [of 3 "str ''abcdefg''"] h1 h2 h3
    by blast
qed

section \<open>Properties of the cookie store\<close>

lemma res_cookies_fold_setCookie:
  "res_cookies (fold (\<lambda>i c'. setCookie c' (f i) (v i) opts) xs c) =
     res_cookies c @ map (\<lambda>i. (f i, v i, opts)) xs"
  by (induction xs arbitrary: c) (simp_all add: setCookie_def)

lemma req_cookies_fold_setCookie:
  "req_cookies (fold (\<lambda>i c'. setCookie c' (f i) (v i) opts) xs c) = req_cookies c"
  by (induction xs arbitrary: c) (simp_all add: setCookie_def)

lemma clear_cookies_eq:
  "clear_cookies this c =
     c\<lparr>res_cookies := res_cookies c @
        map (\<lambda>i. (getCookieName (sessionCookieName this) i, [],
                  Some (expire_now (cookieOptions this)))) [0..<10] @
        [(sessionCookieName this @ str ''_count'', [], cookieOptions this)]\<rparr>"
proof -
  let ?c1 = "fold (\<lambda>i c'. setCookie c' (getCookieName (sessionCookieName this) i) []
                         (Some (expire_now (cookieOptions this)))) [0..<10] c"
  have "res_cookies ?c1 = res_cookies c @
        map (\<lambda>i. (getCookieName (sessionCookieName this) i, [],
                  Some (expire_now (cookieOptions this)))) [0..<10]"
    by (rule res_cookies_fold_setCookie)
  moreover have "req_cookies ?c1 = req_cookies c"
    by (rule req_cookies_fold_setCookie)
  ultimately show ?thesis
    by (simp add: clear_cookies_def setCookie_def Let_def del: upt_rec_numeral)
qed

text \<open>
  Claim C9, as the code has it. \<^verbatim>\<open>deleteSession\<close> always makes the same eleven writes,
  whatever the request holds: the ten indexed cookies \<open>N\<close>, \<open>N_1\<close>, ..., \<open>N_9\<close>, each with the
  empty value and the configured options with \<^verbatim>\<open>maxAge\<close> overridden to 0, and then the
  count cookie with the empty value and the configured options as they are.
\<close>

theorem deleteSession_writes:
  "deleteSession this c =
     c\<lparr>res_cookies := res_cookies c @
        map (\<lambda>i. (getCookieName (sessionCookieName this) i, [],
                  Some ((case cookieOptions this of None \<Rightarrow> no_options | Some p \<Rightarrow> p)
                          \<lparr>maxAge := Some 0\<rparr>))) [0..<10] @
        [(sessionCookieName this @ str ''_count'', [], cookieOptions this)]\<rparr>"
  unfolding deleteSession_def clear_cookies_eq expire_now_def ..

lemma upt_10: "[0..<10] = [0, 1, 2, 3, 4, 5, 6, 7, 8, 9]"
  by code_simp

lemma show_nat_digit: "n < 10 \<Longrightarrow> show_nat n = [''0123456789'' ! n]"
  by (simp add: show_nat.simps)

theorem deleteSession_witness:
  "res_cookies (deleteSession test_store (request [])) =
     [(str ''test-session'', [], Some (test_options\<lparr>maxAge := Some 0\<rparr>)),
      (str ''test-session_1'', [], Some (test_options\<lparr>maxAge := Some 0\<rparr>)),
      (str ''test-session_2'', [], Some (test_options\<lparr>maxAge := Some 0\<rparr>)),
      (str ''test-session_3'', [], Some (test_options\<lparr>maxAge := Some 0\<rparr>)),
      (str ''test-session_4'', [], Some (test_options\<lparr>maxAge := Some 0\<rparr>)),
      (str ''test-session_5'', [], Some (test_options\<lparr>maxAge := Some 0\<rparr>)),
      (str ''test-session_6'', [], Some (test_options\<lparr>maxAge := Some 0\<rparr>)),
      (str ''test-session_7'', [], Some (test_options\<lparr>maxAge := Some 0\<rparr>)),
      (str ''test-session_8'', [], Some (test_options\<lparr>maxAge := Some 0\<rparr>)),
      (str ''test-session_9'', [], Some (test_options\<lparr>maxAge := Some 0\<rparr>)),
      (str ''test-session_count'', [], Some test_options)]"
  using deleteSession_writes [of test_store "request []"]
  by (simp add: test_store_def new_CookieStore_def truthy_def request_def getCookieName_def
      str_def upt_10 show_nat_digit)

text \<open>
  Claim C9 as stated fails: with the options of the test suite (no \<^verbatim>\<open>maxAge\<close>) the write
  of the count cookie carries no \<^verbatim>\<open>maxAge\<close> of 0, so not all eleven writes do.
\<close>

theorem deleteSession_counterexample:
  "\<not> list_all (\<lambda>(name, v, opts). v = [] \<and> (case opts of None \<Rightarrow> False | Some p \<Rightarrow> maxAge p = Some 0))
       (res_cookies (deleteSession test_store (request [])))"
  by (simp add: deleteSession_def clear_cookies_eq test_store_def new_CookieStore_def truthy_def
      request_def test_options_def no_options_def)


lemma ascii_not_surrogate: "u < 0x80 \<Longrightarrow> \<not> is_lead u \<and> \<not> is_trail u"
  by (simp add: is_lead_def is_trail_def word_less_nat_alt word_le_nat_alt)

lemma code_points_ascii: "\<forall>u\<in>set s. u < 0x80 \<Longrightarrow> code_points s = map (\<lambda>u. [u]) s"
proof (induction s rule: code_points.induct)
  case (3 u v r)
  then have "\<not> is_lead u"
    by (simp add: ascii_not_surrogate)
  with 3 show ?case by simp
qed simp_all

lemma encode_ascii_unit: "u < 0x80 \<Longrightarrow> length (encode [u]) = 1"
proof -
  assume a: "u < 0x80"
  then have "\<not> is_lead u" "\<not> is_trail u"
    by (simp_all add: ascii_not_surrogate)
  moreover from a have "unat u < 0x80"
    by (simp add: word_less_nat_alt)
  ultimately show ?thesis
    by (simp add: encode_def utf8_def)
qed

lemma single_byte_ascii:
  "\<forall>u\<in>set s. u < 0x80 \<Longrightarrow> \<forall>c\<in>set (code_points s). length (encode c) = 1"
  by (auto simp: code_points_ascii encode_ascii_unit)

lemma length_encode_ascii:
  assumes "\<forall>u\<in>set s. u < 0x80"
  shows "length (encode s) = length s"
proof -
  have "length (encode s) = char_bytes (code_points s)"
    by (simp only: char_bytes_code_points)
  also have "\<dots> = length (code_points s)"
    using assms by (intro char_bytes_single single_byte_ascii)
  also have "\<dots> = length s"
    using assms by (simp add: code_points_ascii)
  finally show ?thesis .
qed

lemma chunk_count_ascii:
  assumes "\<forall>u\<in>set s. u < 0x80" and "1 \<le> B"
  shows "int (length (chunkStringByBytes s B)) = (int (length s) + B - 1) div B"
  using chunk_count_single_byte [OF single_byte_ascii [OF assms(1)] assms(2)]
  by (simp add: length_encode_ascii [OF assms(1)])

text \<open>
  Claim C3. When the payload splits into more than ten chunks of 4000 bytes,
  \<^verbatim>\<open>persistSessionData\<close> of the cookie store fails with the oversized-session error, and
  the cookie writes it has made are exactly the eleven clearing writes, each with the empty
  value: no chunk and no count is written.
\<close>

theorem persist_oversized:
  assumes "10 < length (chunkStringByBytes (cookie_payload this ext session_data) 4000)"
  shows "persistSessionData this ext c session_data =
     (Inl SessionTooLarge,
      c\<lparr>res_cookies := res_cookies c @
         map (\<lambda>i. (getCookieName (sessionCookieName this) i, [],
                   Some (expire_now (cookieOptions this)))) [0..<10] @
         [(sessionCookieName this @ str ''_count'', [], cookieOptions this)]\<rparr>)"
  using assms by (simp add: persistSessionData_def Let_def clear_cookies_eq del: upt_rec_numeral)

lemma test_payload:
  "length (chunkStringByBytes (cookie_payload test_store test_externals d) 4000) = 11"
proof -
  let ?p = "str ''encrypted:'' @ replicate 40001 (0x61 :: 16 word)"
  have p: "cookie_payload test_store test_externals d = ?p"
    by (simp add: cookie_payload_def test_store_def test_externals_def new_CookieStore_def
        truthy_def str_def)
  have "\<forall>u\<in>set ?p. u < 0x80"
    by (auto simp: str_def)
  then have "int (length (chunkStringByBytes ?p 4000)) = (int (length ?p) + 4000 - 1) div 4000"
    by (rule chunk_count_ascii) simp
  also have "\<dots> = 11"
    by (simp add: str_def)
  finally show ?thesis
    by (simp add: p)
qed

theorem persist_oversized_witness:
  "10 < length (chunkStringByBytes (cookie_payload test_store test_externals
          \<lparr>s_data = (), s_expire = None, s_delete = False, s_accessed = None\<rparr>) 4000) \<and>
   persistSessionData test_store test_externals (request [])
       \<lparr>s_data = (), s_expire = None, s_delete = False, s_accessed = None\<rparr> =
     (Inl SessionTooLarge,
      \<lparr>req_cookies = Map.empty,
       res_cookies =
         [(str ''test-session'', [], Some (test_options\<lparr>maxAge := Some 0\<rparr>)),
          (str ''test-session_1'', [], Some (test_options\<lparr>maxAge := Some 0\<rparr>)),
          (str ''test-session_2'', [], Some (test_options\<lparr>maxAge := Some 0\<rparr>)),
          (str ''test-session_3'', [], Some (test_options\<lparr>maxAge := Some 0\<rparr>)),
          (str ''test-session_4'', [], Some (test_options\<lparr>maxAge := Some 0\<rparr>)),
          (str ''test-session_5'', [], Some (test_options\<lparr>maxAge := Some 0\<rparr>)),
          (str ''test-session_6'', [], Some (test_options\<lparr>maxAge := Some 0\<rparr>)),
          (str ''test-session_7'', [], Some (test_options\<lparr>maxAge := Some 0\<rparr>)),
          (str ''test-session_8'', [], Some (test_options\<lparr>maxAge := Some 0\<rparr>)),
          (str ''test-session_9'', [], Some (test_options\<lparr>maxAge := Some 0\<rparr>)),
          (str ''test-session_count'', [], Some test_options)]\<rparr>)"
proof -
  let ?d = "\<lparr>s_data = (), s_expire = None, s_delete = False, s_accessed = None\<rparr>"
  have h: "10 < length (chunkStringByBytes (cookie_payload test_store test_externals ?d) 4000)"
    by (simp add: test_payload)
  show ?thesis
    using persist_oversized [OF h, of "request []"] h
    by (simp add: test_store_def new_CookieStore_def truthy_def request_def getCookieName_def
        str_def upt_10 show_nat_digit expire_now_def)
qed









section \<open>Properties of the keyed backend store\<close>

lemma kv_set_kv: "kv this w = Inr ns \<Longrightarrow> kv this (set_kv this w ns') = Inr ns'"
  by (auto simp: kv_def set_kv_def split: option.splits)

lemma kv_console_error: "kv this (console_error msg e w) = kv this w"
  by (simp add: kv_def console_error_def)


lemma kv_deleteSession_bound:
  "sessionId \<noteq> [] \<Longrightarrow> kv this w = Inr ns \<Longrightarrow>
   kv_deleteSession this w sessionId =
     (Inr (), set_kv this w (ns(getKeyFromSessionId this sessionId := None)))"
  by (simp add: kv_deleteSession_def)


text \<open>
  Claim C6. With a non-empty identifier and a bound namespace: \<^verbatim>\<open>persistSessionData\<close> of
  a session whose \<^verbatim>\<open>_delete\<close> flag is set deletes the record under the derived key and
  puts nothing, and \<^verbatim>\<open>getSessionById\<close> of a stored record whose \<^verbatim>\<open>_delete\<close> flag is set
  deletes that record and returns \<^verbatim>\<open>null\<close>. After either, the namespace holds no record
  under the derived key, and a further \<^verbatim>\<open>getSessionById\<close> returns \<^verbatim>\<open>null\<close>.
\<close>

theorem delete_terminal:
  assumes "sessionId \<noteq> []" and "kv this w = Inr ns"
  defines "key \<equiv> getKeyFromSessionId this sessionId"
  defines "w' \<equiv> set_kv this w (ns(key := None))"
  shows "(s_delete sessionData \<longrightarrow>
            kv_persistSessionData this d w sessionId sessionData = (Inr (), w')) \<and>
         ((\<exists>entry. ns key = Some entry \<and> s_delete (kv_value entry)) \<longrightarrow>
            getSessionById this d w (Some sessionId) = (Null, w')) \<and>
         kv this w' = Inr (ns(key := None)) \<and> stored this w' key = None \<and>
         getSessionById this d w' (Some sessionId) = (Null, w')"
proof (intro conjI impI)
  assume "s_delete sessionData"
  then show "kv_persistSessionData this d w sessionId sessionData = (Inr (), w')"
    using assms(1,2) by (simp add: kv_persistSessionData_def kv_deleteSession_bound w'_def key_def)
next
  assume "\<exists>entry. ns key = Some entry \<and> s_delete (kv_value entry)"
  then obtain entry where "ns key = Some entry" "s_delete (kv_value entry)" by blast
  then show "getSessionById this d w (Some sessionId) = (Null, w')"
    using assms(1,2)
    by (simp add: getSessionById_def truthy_def kv_deleteSession_bound w'_def key_def Let_def)
next
  show k: "kv this w' = Inr (ns(key := None))"
    using assms(2) by (simp add: w'_def kv_set_kv)
  then show "stored this w' key = None"
    by (simp add: stored_def)
  from k show "getSessionById this d w' (Some sessionId) = (Null, w')"
    using assms(1) by (simp add: getSessionById_def truthy_def key_def)
qed

lemmas kv_test_defs = kv_store_def new_CloudflareKVStore_def number_truthy_def truthy_def
  bound_world_def unbound_world_def session_def test_dates_def getKeyFromSessionId_def str_def

lemma kv_bound_world: "kv kv_store (bound_world entries) = Inr (map_of entries)"
  by (simp add: kv_def kv_test_defs)

theorem delete_terminal_witness:
  "str ''sid'' \<noteq> [] \<and>
   kv kv_store (bound_world [(str ''session:sid'',
        \<lparr>kv_value = session None True None, kv_options = put_options kv_store None\<rparr>)]) =
     Inr (map_of [(str ''session:sid'',
        \<lparr>kv_value = session None True None, kv_options = put_options kv_store None\<rparr>)]) \<and>
   stored kv_store
     (snd (kv_persistSessionData kv_store test_dates
        (bound_world [(str ''session:sid'',
           \<lparr>kv_value = session None True None, kv_options = put_options kv_store None\<rparr>)])
        (str ''sid'') (session None True None)))
     (str ''session:sid'') = None \<and>
   fst (getSessionById kv_store test_dates
        (bound_world [(str ''session:sid'',
           \<lparr>kv_value = session None True None, kv_options = put_options kv_store None\<rparr>)])
        (Some (str ''sid''))) = Null \<and>
   stored kv_store
     (snd (getSessionById kv_store test_dates
        (bound_world [(str ''session:sid'',
           \<lparr>kv_value = session None True None, kv_options = put_options kv_store None\<rparr>)])
        (Some (str ''sid''))))
     (str ''session:sid'') = None"
proof -
  let ?e = "\<lparr>kv_value = session None True None, kv_options = put_options kv_store None\<rparr>"
  let ?w = "bound_world [(str ''session:sid'', ?e)]"
  have h1: "str ''sid'' \<noteq> []" by (simp add: str_def)
  have h2: "kv kv_store ?w = Inr (map_of [(str ''session:sid'', ?e)])"
    by (rule kv_bound_world)
  have k: "getKeyFromSessionId kv_store (str ''sid'') = str ''session:sid''"
    by (simp add: kv_test_defs)
  have h3: "s_delete (session None True None)" by (simp add: session_def)
  have h4: "\<exists>entry. map_of [(str ''session:sid'', ?e)] (str ''session:sid'') = Some entry \<and>
      s_delete (kv_value entry)"
    by (simp add: session_def)
  show ?thesis
    using delete_terminal [OF h1 h2, of "session None True None" test_dates] h1 h2 h3 h4
    by (simp add: k)
qed





lemma stored_set_kv:
  "kv this w = Inr ns \<Longrightarrow> stored this (set_kv this w (ns(key \<mapsto> entry))) key = Some entry"
  by (simp add: stored_def kv_set_kv)

lemma kv_createSession_bound:
  "sessionId \<noteq> [] \<Longrightarrow> kv this w = Inr ns \<Longrightarrow>
   stored this (snd (kv_createSession this d w sessionId sessionData))
       (getKeyFromSessionId this sessionId) =
     Some \<lparr>kv_value = (if \<not> truthy (s_accessed sessionData)
                       then sessionData\<lparr>s_accessed := Some (now_iso d)\<rparr> else sessionData),
           kv_options = put_options this (expiration_of d sessionData)\<rparr>"
  by (simp add: kv_createSession_def Let_def stored_set_kv expiration_of_def)

lemma kv_persistSessionData_bound:
  "sessionId \<noteq> [] \<Longrightarrow> kv this w = Inr ns \<Longrightarrow> \<not> s_delete sessionData \<Longrightarrow>
   stored this (snd (kv_persistSessionData this d w sessionId sessionData))
       (getKeyFromSessionId this sessionId) =
     Some \<lparr>kv_value = sessionData\<lparr>s_accessed := Some (now_iso d)\<rparr>,
           kv_options = put_options this (expiration_of d sessionData)\<rparr>"
  by (simp add: kv_persistSessionData_def Let_def stored_set_kv expiration_of_def)

text \<open>
  Claim C8, as the code has it. With a non-empty identifier and a bound namespace,
  \<^verbatim>\<open>createSession\<close> stores the supplied \<^verbatim>\<open>_accessed\<close> when it is a non-empty string and
  the current time when it is \<^verbatim>\<open>null\<close> or empty; \<^verbatim>\<open>persistSessionData\<close>, when it writes,
  always stores the current time.
\<close>

theorem accessed_written:
  assumes "sessionId \<noteq> []" and "kv this w = Inr ns"
  shows "map_option (\<lambda>entry. s_accessed (kv_value entry))
           (stored this (snd (kv_createSession this d w sessionId sessionData))
              (getKeyFromSessionId this sessionId)) =
           Some (if truthy (s_accessed sessionData) then s_accessed sessionData
                 else Some (now_iso d)) \<and>
         (\<not> s_delete sessionData \<longrightarrow>
            map_option (\<lambda>entry. s_accessed (kv_value entry))
              (stored this (snd (kv_persistSessionData this d w sessionId sessionData))
                 (getKeyFromSessionId this sessionId)) = Some (Some (now_iso d)))"
  using assms by (simp add: kv_createSession_bound kv_persistSessionData_bound)

theorem accessed_written_witness:
  "str ''sid'' \<noteq> [] \<and> kv kv_store (bound_world []) = Inr (map_of []) \<and>
   map_option (\<lambda>entry. s_accessed (kv_value entry))
     (stored kv_store
        (snd (kv_createSession kv_store test_dates (bound_world []) (str ''sid'')
           (session None False (Some (str ''2023-01-01T00:00:00.000Z'')))))
        (str ''session:sid'')) = Some (Some (str ''2023-01-01T00:00:00.000Z'')) \<and>
   map_option (\<lambda>entry. s_accessed (kv_value entry))
     (stored kv_store
        (snd (kv_createSession kv_store test_dates (bound_world []) (str ''sid'')
           (session None False None)))
        (str ''session:sid'')) = Some (Some (str ''2024-01-01T00:00:00.000Z'')) \<and>
   map_option (\<lambda>entry. s_accessed (kv_value entry))
     (stored kv_store
        (snd (kv_persistSessionData kv_store test_dates (bound_world []) (str ''sid'')
           (session None False None)))
        (str ''session:sid'')) = Some (Some (str ''2024-01-01T00:00:00.000Z''))"
proof -
  have h1: "str ''sid'' \<noteq> []" by (simp add: str_def)
  have h2: "kv kv_store (bound_world []) = Inr (map_of [])"
    by (rule kv_bound_world)
  have k: "getKeyFromSessionId kv_store (str ''sid'') = str ''session:sid''"
    by (simp add: kv_test_defs)
  show ?thesis
    using accessed_written [OF h1 h2, of test_dates
        "session None False (Some (str ''2023-01-01T00:00:00.000Z''))"]
      accessed_written [OF h1 h2, of test_dates "session None False None"] h1 h2
    by (simp add: k) (simp add: session_def truthy_def test_dates_def str_def)
qed

text \<open>
  Claim C8 as stated fails for \<^verbatim>\<open>persistSessionData\<close>: a supplied \<^verbatim>\<open>_accessed\<close> of 2023 is
  replaced by the current time in the stored record.
\<close>

theorem accessed_written_counterexample:
  "map_option (\<lambda>entry. s_accessed (kv_value entry))
     (stored kv_store
        (snd (kv_persistSessionData kv_store test_dates (bound_world []) (str ''sid'')
           (session None False (Some (str ''2023-01-01T00:00:00.000Z'')))))
        (str ''session:sid'')) = Some (Some (str ''2024-01-01T00:00:00.000Z'')) \<and>
   str ''2024-01-01T00:00:00.000Z'' \<noteq> str ''2023-01-01T00:00:00.000Z''"
proof -
  have h1: "str ''sid'' \<noteq> []" by (simp add: str_def)
  have k: "getKeyFromSessionId kv_store (str ''sid'') = str ''session:sid''"
    by (simp add: kv_test_defs)
  have "\<not> s_delete (session None False (Some (str ''2023-01-01T00:00:00.000Z'')))"
    by (simp add: session_def)
  from kv_persistSessionData_bound [OF h1 kv_bound_world this, of test_dates "[]"]
  show ?thesis
    by (simp add: k) (simp add: test_dates_def str_def)
qed


text \<open>
  The options of the \<^verbatim>\<open>put\<close> where the epoch second of \<^verbatim>\<open>_expire\<close> is a number other
  than 0, and where \<^verbatim>\<open>_expire\<close> is not set; and the default TTL of the constructor.
\<close>

lemma put_options_expire:
  assumes "truthy (s_expire sessionData)"
    and "getTime d (the (s_expire sessionData)) = Num ms" and "ms div 1000 \<noteq> 0"
  shows "put_options this (expiration_of d sessionData) =
     \<lparr>expirationTtl = None, expiration = Some (Num (ms div 1000))\<rparr>"
  using assms by (simp add: put_options_def expiration_of_def floor_seconds_def number_truthy_def)

lemma put_options_default:
  assumes "\<not> truthy (s_expire sessionData)"
  shows "put_options this (expiration_of d sessionData) =
     \<lparr>expirationTtl = Some (store_ttl this), expiration = None\<rparr>"
  using assms by (simp add: put_options_def expiration_of_def number_truthy_def)

lemma default_ttl: "store_ttl (new_CloudflareKVStore name None pre) = Num 86400"
  by (simp add: new_CloudflareKVStore_def number_truthy_def)

lemma iso_time_epoch: "iso_time (str ''1970-01-01T00:00:00.500Z'') = Num 500"
  by (simp add: iso_time_def dec_def is_digit_def digits_value_def days_from_civil_def str_def)

text \<open>
  Claim C7 at the first second of the epoch. \<^verbatim>\<open>_expire\<close> is set and its epoch second is
  0; the \<^verbatim>\<open>put\<close> of \<^verbatim>\<open>createSession\<close> and of \<^verbatim>\<open>persistSessionData\<close> receives the
  absolute expiration 0 together with the default TTL of 86400 seconds.
\<close>

theorem expire_first_second:
  "truthy (s_expire (session (Some (str ''1970-01-01T00:00:00.500Z'')) False None)) \<and>
   floor_seconds (getTime test_dates (str ''1970-01-01T00:00:00.500Z'')) = Num 0 \<and>
   map_option kv_options
     (stored kv_store
        (snd (kv_createSession kv_store test_dates (bound_world []) (str ''sid'')
           (session (Some (str ''1970-01-01T00:00:00.500Z'')) False None)))
        (str ''session:sid'')) =
     Some \<lparr>expirationTtl = Some (Num 86400), expiration = Some (Num 0)\<rparr> \<and>
   map_option kv_options
     (stored kv_store
        (snd (kv_persistSessionData kv_store test_dates (bound_world []) (str ''sid'')
           (session (Some (str ''1970-01-01T00:00:00.500Z'')) False None)))
        (str ''session:sid'')) =
     Some \<lparr>expirationTtl = Some (Num 86400), expiration = Some (Num 0)\<rparr>"
proof -
  let ?s = "session (Some (str ''1970-01-01T00:00:00.500Z'')) False None"
  have h1: "str ''sid'' \<noteq> []" by (simp add: str_def)
  have k: "getKeyFromSessionId kv_store (str ''sid'') = str ''session:sid''"
    by (simp add: kv_test_defs)
  have t: "truthy (s_expire ?s)" "\<not> s_delete ?s"
    by (simp_all add: session_def truthy_def str_def)
  have f: "floor_seconds (getTime test_dates (str ''1970-01-01T00:00:00.500Z'')) = Num 0"
    by (simp add: test_dates_def iso_time_epoch floor_seconds_def)
  have e: "expiration_of test_dates ?s = Some (Num 0)"
    using t(1) f by (simp add: expiration_of_def) (simp add: session_def)
  have p: "put_options kv_store (Some (Num 0)) =
      \<lparr>expirationTtl = Some (Num 86400), expiration = Some (Num 0)\<rparr>"
    by (simp add: put_options_def kv_store_def default_ttl number_truthy_def)
  show ?thesis
    using kv_createSession_bound [OF h1 kv_bound_world, of test_dates "[]" ?s]
      kv_persistSessionData_bound [OF h1 kv_bound_world t(2), of test_dates "[]"] t(1) f
    by (simp add: k e p)
qed

end
